theory Spec2Isabelle
  imports Complex_Main "HOL-Library.Word" "HOL-Library.Monad_Syntax" "HOL-Library.Log_Nat"
begin

section \<open>Python values\<close>

text \<open>
  A Python float is the real number it denotes. The comparisons of the source with the
  constants 0, 1.0 and 360 are exact on floats. Arithmetic is real arithmetic, except in
  \<open>adjust_brightness_contrast_numpy\<close>, whose integer results depend on the rounding
  of each operation: there every operation is rounded to binary64 by \<open>float64\<close>.
  A raised exception is the value \<open>None\<close> of an option type; everything else is
  \<open>Some\<close> result.
\<close>

definition py_int :: "real \<Rightarrow> int" where
  \<comment> \<open>\<open>int(x)\<close> on a float: truncation towards zero.\<close>
  "py_int x = (if 0 \<le> x then \<lfloor>x\<rfloor> else \<lceil>x\<rceil>)"

definition py_round :: "real \<Rightarrow> int" where
  \<comment> \<open>\<open>round(x)\<close> on a float: to the nearest integer, a tie to the even one.\<close>
  "py_round x =
     (let f = \<lfloor>x\<rfloor>; d = x - of_int f
      in if d < 1 / 2 then f
         else if 1 / 2 < d then f + 1
         else if even f then f else f + 1)"

definition ilog2 :: "real \<Rightarrow> int" where
  \<comment> \<open>The exponent of a positive number: the \<open>e\<close> with \<open>2^e \<le> x < 2^(e+1)\<close>.\<close>
  "ilog2 x = (if 1 \<le> x then bitlen \<lfloor>x\<rfloor> - 1 else - bitlen (\<lceil>1 / x\<rceil> - 1))"

definition float64 :: "real \<Rightarrow> real" where
  \<comment> \<open>The binary64 number nearest to \<open>x\<close>, a tie going to the even significand: 53
      significant bits from the exponent -1022 upwards, multiples of \<open>2^-1074\<close> below.
      Overflow to infinity is left out: no magnitude of the program reaches \<open>2^1024\<close>
      on parameters in their documented ranges.\<close>
  "float64 x =
     (if x = 0 then 0
      else
        let e = max (ilog2 \<bar>x\<bar>) (- 1022);
            ulp = 2 powi (e - 52)
        in of_int (py_round (x / ulp)) * ulp)"

definition py_slice_to :: "int \<Rightarrow> 'a list \<Rightarrow> 'a list" where
  \<comment> \<open>\<open>xs[:k]\<close>: a negative bound counts from the end.\<close>
  "py_slice_to k xs =
     (if 0 \<le> k then take (nat k) xs else take (nat (int (length xs) + k)) xs)"

definition py_index :: "'a list \<Rightarrow> int \<Rightarrow> 'a option" where
  \<comment> \<open>\<open>xs[i]\<close>: a negative index counts from the end, out of range raises IndexError.\<close>
  "py_index xs i =
     (let n = int (length xs); j = (if i < 0 then n + i else i)
      in if 0 \<le> j \<and> j < n then Some (xs ! nat j) else None)"

section \<open>The application state\<close>

text \<open>
  The status bar holds either a fixed text or the f-string of \<open>update_image\<close>, kept
  here as the tuple of the values it formats.
\<close>

datatype status =
  Text string
  | Adjustments real real real int string real

text \<open>
  The fields of \<open>ImageProcessorApp\<close> that the pipeline and the history read or write.
  The widgets are their values: a slider is the number it shows, the filter variable is
  its string. \<open>rng\<close> is the state of NumPy's global random generator.
\<close>

record ('img, 'rng) app =
  original_image :: "'img option"
  processed_image :: "'img option"
  real_time_preview :: bool
  brightness_slider :: real
  contrast_slider :: real
  saturation_slider :: real
  hue_slider :: int
  current_brightness :: real
  current_contrast :: real
  current_saturation :: real
  current_hue :: int
  current_filter :: string
  filter_intensity :: real
  history :: "'img list"
  history_position :: int
  max_history :: int
  status_bar :: status
  zoom_factor :: real
  rng :: 'rng

definition init_app :: "'rng \<Rightarrow> ('img, 'rng) app" where
  \<comment> \<open>The state \<open>__init__\<close> builds, with the sliders at the values \<open>setup_ui\<close> sets.\<close>
  "init_app g =
     \<lparr> original_image = None, processed_image = None, real_time_preview = True,
       brightness_slider = 0, contrast_slider = 1, saturation_slider = 1, hue_slider = 0,
       current_brightness = 0, current_contrast = 1, current_saturation = 1,
       current_hue = 0, current_filter = ''none'', filter_intensity = 1,
       history = [], history_position = - 1, max_history = 10,
       status_bar = Text [], zoom_factor = 1, rng = g \<rparr>"

section \<open>History: undo and redo\<close>

definition add_to_history :: "('img, 'rng) app \<Rightarrow> ('img, 'rng) app" where
  "add_to_history s =
     (case processed_image s of
        None \<Rightarrow> s
      | Some img \<Rightarrow>
          let h = (if history_position s < int (length (history s)) - 1
                   then py_slice_to (history_position s + 1) (history s)
                   else history s);
              h = h @ [img];
              pos = int (length h) - 1
          in if int (length h) > max_history s
             then s\<lparr>history := drop 1 h, history_position := pos - 1\<rparr>
             else s\<lparr>history := h, history_position := pos\<rparr>)"

definition undo :: "('img, 'rng) app \<Rightarrow> ('img, 'rng) app option" where
  "undo s =
     (if history_position s > 0 then
        (let pos = history_position s - 1
         in case py_index (history s) pos of
              None \<Rightarrow> None
            | Some img \<Rightarrow>
                Some (s\<lparr>history_position := pos, processed_image := Some img,
                        status_bar := Text ''Undo: Reverted to previous state''\<rparr>))
      else Some (s\<lparr>status_bar := Text ''Nothing to undo''\<rparr>))"

definition redo :: "('img, 'rng) app \<Rightarrow> ('img, 'rng) app option" where
  "redo s =
     (if history_position s < int (length (history s)) - 1 then
        (let pos = history_position s + 1
         in case py_index (history s) pos of
              None \<Rightarrow> None
            | Some img \<Rightarrow>
                Some (s\<lparr>history_position := pos, processed_image := Some img,
                        status_bar := Text ''Redo: Applied next state''\<rparr>))
      else Some (s\<lparr>status_bar := Text ''Nothing to redo''\<rparr>))"

text \<open>
  A committed edit, as every caller does it (\<open>rotate_image\<close>, \<open>flip_horizontal\<close>, ...):
  the new image becomes the processed image, then \<open>add_to_history\<close> runs.
\<close>

definition push :: "'img \<Rightarrow> ('img, 'rng) app \<Rightarrow> ('img, 'rng) app" where
  "push img s = add_to_history (s\<lparr>processed_image := Some img\<rparr>)"

datatype 'img hist_op = Push 'img | Undo | Redo

fun run_op :: "'img hist_op \<Rightarrow> ('img, 'rng) app \<Rightarrow> ('img, 'rng) app option" where
  "run_op (Push img) s = Some (push img s)"
| "run_op Undo s = undo s"
| "run_op Redo s = redo s"

fun run_ops :: "'img hist_op list \<Rightarrow> ('img, 'rng) app \<Rightarrow> ('img, 'rng) app option" where
  "run_ops [] s = Some s"
| "run_ops (x # xs) s = (case run_op x s of None \<Rightarrow> None | Some s' \<Rightarrow> run_ops xs s')"

definition hist_inv :: "('img, 'rng) app \<Rightarrow> bool" where
  \<comment> \<open>At most ten entries; the cursor is \<open>-1\<close> on the empty store and an index otherwise.\<close>
  "hist_inv s \<longleftrightarrow>
     max_history s = 10 \<and> int (length (history s)) \<le> max_history s \<and>
     - 1 \<le> history_position s \<and> history_position s < int (length (history s)) \<and>
     (history s = [] \<or> 0 \<le> history_position s)"

section \<open>The imaging libraries\<close>

text \<open>
  Pillow and NumPy are outside the repository: their operations are the fields of a
  record that every function of the program takes as its first argument. An operation
  that can raise returns an option. \<open>image.copy()\<close> is the identity on values, since
  no image is changed in place afterwards.
\<close>

datatype kernel =
  BLUR | CONTOUR | DETAIL | EDGE_ENHANCE | EDGE_ENHANCE_MORE | EMBOSS | FIND_EDGES
  | SHARPEN | SMOOTH | SMOOTH_MORE
  | GaussianBlur real | MedianFilter int | ModeFilter int | MinFilter int | MaxFilter int

text \<open>A NumPy array: its shape and its elements in row-major order.\<close>

record 'a ndarray =
  shape :: "nat list"
  elems :: "'a list"

record ('img, 'rng) pil =
  img_mode :: "'img \<Rightarrow> string"
  img_size :: "'img \<Rightarrow> int \<times> int"
  img_convert :: "'img \<Rightarrow> string \<Rightarrow> 'img option"
  img_split :: "'img \<Rightarrow> 'img list"
  img_filter :: "'img \<Rightarrow> kernel \<Rightarrow> 'img option"
  img_point :: "'img \<Rightarrow> (int \<Rightarrow> int) \<Rightarrow> 'img option"
  img_crop :: "'img \<Rightarrow> int \<times> int \<times> int \<times> int \<Rightarrow> 'img option"
  img_resize :: "'img \<Rightarrow> int \<times> int \<Rightarrow> 'img option"
  Image_new :: "string \<Rightarrow> int \<times> int \<Rightarrow> int list \<Rightarrow> 'img option"
  Image_merge :: "string \<Rightarrow> 'img list \<Rightarrow> 'img option"
  Image_blend :: "'img \<Rightarrow> 'img \<Rightarrow> real \<Rightarrow> 'img option"
  Image_composite :: "'img \<Rightarrow> 'img \<Rightarrow> 'img \<Rightarrow> 'img option"
  Image_fromarray :: "8 word ndarray \<Rightarrow> 'img option"
  ImageEnhance_Brightness :: "'img \<Rightarrow> real \<Rightarrow> 'img option"
  ImageEnhance_Contrast :: "'img \<Rightarrow> real \<Rightarrow> 'img option"
  ImageEnhance_Color :: "'img \<Rightarrow> real \<Rightarrow> 'img option"
  ImageOps_grayscale :: "'img \<Rightarrow> 'img option"
  ImageOps_equalize :: "'img \<Rightarrow> 'img option"
  ImageOps_invert :: "'img \<Rightarrow> 'img option"
  ImageOps_autocontrast :: "'img \<Rightarrow> real \<Rightarrow> 'img option"
  ImageOps_posterize :: "'img \<Rightarrow> int \<Rightarrow> 'img option"
  ImageChops_multiply :: "'img \<Rightarrow> 'img \<Rightarrow> 'img option"
  ImageDraw_ellipse :: "'img \<Rightarrow> (int \<times> int) \<times> (int \<times> int) \<Rightarrow> int \<Rightarrow> 'img option"
  np_array :: "'img \<Rightarrow> 8 word ndarray"
  np_random_normal :: "real \<Rightarrow> real \<Rightarrow> 'rng \<Rightarrow> real \<times> 'rng"
  uint8_overflow :: "real \<Rightarrow> 8 word"

definition map_nd :: "('a \<Rightarrow> 'b) \<Rightarrow> 'a ndarray \<Rightarrow> 'b ndarray" where
  \<comment> \<open>An elementwise operation of NumPy.\<close>
  "map_nd f a = \<lparr>shape = shape a, elems = map f (elems a)\<rparr>"

definition np_clip :: "'a::linorder \<Rightarrow> 'a \<Rightarrow> 'a \<Rightarrow> 'a" where
  "np_clip lo hi x = min hi (max lo x)"

definition astype_uint8 :: "('img, 'rng) pil \<Rightarrow> real \<Rightarrow> 8 word" where
  \<comment> \<open>A float stored as uint8 is truncated; what a value outside the type becomes
      depends on the platform, and is the library's \<open>uint8_overflow\<close>.\<close>
  "astype_uint8 P x =
     (if - 1 < x \<and> x < 256 then word_of_int (py_int x) else uint8_overflow P x)"

fun normal_samples ::
  "('img, 'rng) pil \<Rightarrow> real \<Rightarrow> real \<Rightarrow> nat \<Rightarrow> 'rng \<Rightarrow> real list \<times> 'rng" where
  "normal_samples P m sd 0 g = ([], g)"
| "normal_samples P m sd (Suc n) g =
     (let (x, g1) = np_random_normal P m sd g;
          (xs, g2) = normal_samples P m sd n g1
      in (x # xs, g2))"

definition np_random_normal_array ::
  "('img, 'rng) pil \<Rightarrow> real \<Rightarrow> real \<Rightarrow> nat list \<Rightarrow> 'rng \<Rightarrow> real ndarray \<times> 'rng" where
  \<comment> \<open>\<open>np.random.normal(m, sd, shape)\<close>: one draw per element, the generator threaded.\<close>
  "np_random_normal_array P m sd shp g =
     (let (xs, g') = normal_samples P m sd (prod_list shp) g
      in (\<lparr>shape = shp, elems = xs\<rparr>, g'))"

definition np_add :: "8 word ndarray \<Rightarrow> 8 word ndarray \<Rightarrow> 8 word ndarray" where
  \<comment> \<open>The sum of two uint8 arrays of one shape wraps around.\<close>
  "np_add a b = \<lparr>shape = shape a, elems = map2 (+) (elems a) (elems b)\<rparr>"

section \<open>image_utils\<close>

definition to_rgb :: "('img, 'rng) pil \<Rightarrow> 'img \<Rightarrow> 'img option" where
  \<comment> \<open>\<open>if image.mode != 'RGB': image = image.convert('RGB')\<close>\<close>
  "to_rgb P image' =
     (if img_mode P image' \<noteq> ''RGB'' then img_convert P image' ''RGB'' else Some image')"

definition adjust_brightness_contrast ::
  "('img, 'rng) pil \<Rightarrow> 'img \<Rightarrow> real \<Rightarrow> real \<Rightarrow> 'img option" where
  "adjust_brightness_contrast P image' brightness contrast =
     do {
       img \<leftarrow> to_rgb P image';
       img \<leftarrow> (if brightness \<noteq> 0
                then ImageEnhance_Brightness P img (1 + brightness / 100)
                else Some img);
       img \<leftarrow> (if contrast \<noteq> 1 then ImageEnhance_Contrast P img contrast else Some img);
       Some img
     }"



definition filters :: "(string \<times> kernel) list" where
  "filters =
     [(''blur'', BLUR), (''contour'', CONTOUR), (''detail'', DETAIL),
      (''edge_enhance'', EDGE_ENHANCE), (''edge_enhance_more'', EDGE_ENHANCE_MORE),
      (''emboss'', EMBOSS), (''find_edges'', FIND_EDGES), (''sharpen'', SHARPEN),
      (''smooth'', SMOOTH), (''smooth_more'', SMOOTH_MORE)]"

definition apply_filter :: "('img, 'rng) pil \<Rightarrow> 'img \<Rightarrow> string \<Rightarrow> 'img option" where
  "apply_filter P image' filter_name =
     (case map_of filters filter_name of
        Some k \<Rightarrow> img_filter P image' k
      | None \<Rightarrow> Some image')"

definition adjust_saturation :: "('img, 'rng) pil \<Rightarrow> 'img \<Rightarrow> real \<Rightarrow> 'img option" where
  "adjust_saturation P image' factor = ImageEnhance_Color P image' factor"

definition adjust_hue :: "('img, 'rng) pil \<Rightarrow> 'img \<Rightarrow> int \<Rightarrow> 'img option" where
  "adjust_hue P image' shift =
     do {
       image' \<leftarrow> to_rgb P image';
       case img_split P image' of
         [r, g, b] \<Rightarrow>
           let normalized_shift = real_of_int (shift mod 360) / 360
           in if normalized_shift < 1 / 3 then Image_merge P ''RGB'' [b, r, g]
              else if normalized_shift < 2 / 3 then Image_merge P ''RGB'' [g, b, r]
              else Some image'
       | _ \<Rightarrow> None
     }"

definition apply_histogram_equalization ::
  "('img, 'rng) pil \<Rightarrow> bool \<Rightarrow> 'img \<Rightarrow> real \<Rightarrow> 'img option" where
  "apply_histogram_equalization P NUMPY_AVAILABLE image' intensity =
     do {
       img \<leftarrow> to_rgb P image';
       if NUMPY_AVAILABLE then
         (let img_array = np_array P img
          in case img_split P img of
               [r, g, b] \<Rightarrow>
                 do {
                   gray \<leftarrow> ImageOps_grayscale P img;
                   l_channel \<leftarrow> ImageOps_equalize P gray;
                   equalized \<leftarrow>
                     (if intensity < 1 then
                        do {
                          original_l \<leftarrow> ImageOps_grayscale P img;
                          Image_blend P original_l l_channel intensity
                        }
                      else Some l_channel);
                   ImageEnhance_Brightness P img (12 / 10)
                 }
             | _ \<Rightarrow> None)
       else
         (case img_split P img of
            [r, g, b] \<Rightarrow>
              do {
                gray \<leftarrow> ImageOps_grayscale P img;
                equalized_gray \<leftarrow> ImageOps_equalize P gray;
                enhanced \<leftarrow> ImageEnhance_Contrast P img (1 + intensity * (5 / 10));
                if intensity < 1 then Image_blend P img enhanced intensity
                else Some enhanced
              }
          | _ \<Rightarrow> None)
     }"

definition apply_pencil_sketch ::
  "('img, 'rng) pil \<Rightarrow> bool \<Rightarrow> 'rng \<Rightarrow> 'img \<Rightarrow> real \<Rightarrow> ('img \<times> 'rng) option" where
  \<comment> \<open>The generator state goes in and comes out beside the image.\<close>
  "apply_pencil_sketch P NUMPY_AVAILABLE g image' intensity =
     do {
       image' \<leftarrow> to_rgb P image';
       gray \<leftarrow> img_convert P image' ''L'';
       let blur_radius = max 1 (py_int (intensity * 3));
       blurred \<leftarrow> img_filter P gray (GaussianBlur (of_int blur_radius));
       edges \<leftarrow> img_filter P blurred FIND_EDGES;
       inverted_edges \<leftarrow> ImageOps_invert P edges;
       enhanced_edges \<leftarrow> ImageEnhance_Contrast P inverted_edges (1 + intensity);
       white_bg \<leftarrow> Image_new P ''L'' (img_size P image') [255];
       let blend_factor = min 1 (intensity * (8 / 10));
       sketch \<leftarrow> Image_blend P white_bg enhanced_edges blend_factor;
       if NUMPY_AVAILABLE then
         (let sketch_array = np_array P sketch;
              (normal, g') = np_random_normal_array P 0 5 (shape sketch_array) g;
              noise = map_nd (astype_uint8 P) normal;
              sketch_array = map_nd (np_clip 0 255) (np_add sketch_array noise)
          in do {
               sketch \<leftarrow> Image_fromarray P sketch_array;
               rgb \<leftarrow> img_convert P sketch ''RGB'';
               Some (rgb, g')
             })
       else
         do {
           rgb \<leftarrow> img_convert P sketch ''RGB'';
           Some (rgb, g)
         }
     }"

fun sepia_elems :: "(real \<Rightarrow> 8 word) \<Rightarrow> 8 word list \<Rightarrow> 8 word list" where
  "sepia_elems cast (r # g # b # rest) =
     cast (real (unat r) * (393 / 1000) + real (unat g) * (769 / 1000)
           + real (unat b) * (189 / 1000))
     # cast (real (unat r) * (349 / 1000) + real (unat g) * (686 / 1000)
             + real (unat b) * (168 / 1000))
     # cast (real (unat r) * (272 / 1000) + real (unat g) * (534 / 1000)
             + real (unat b) * (131 / 1000))
     # sepia_elems cast rest"
| "sepia_elems cast rest = []"

definition apply_sepia :: "('img, 'rng) pil \<Rightarrow> bool \<Rightarrow> 'img \<Rightarrow> 'img option" where
  \<comment> \<open>The array of an RGB image has the shape (height, width, 3); indexing the third
      axis of any other array raises.\<close>
  "apply_sepia P NUMPY_AVAILABLE image' =
     do {
       image' \<leftarrow> to_rgb P image';
       if NUMPY_AVAILABLE then
         (let img_array = np_array P image'
          in case shape img_array of
               [h, w, c] \<Rightarrow>
                 if c = 3 then
                   (let sepia_array =
                          \<lparr>shape = shape img_array,
                           elems = sepia_elems (astype_uint8 P) (elems img_array)\<rparr>;
                        sepia_array = map_nd (np_clip 0 255) sepia_array
                    in Image_fromarray P sepia_array)
                 else None
             | _ \<Rightarrow> None)
       else
         do {
           sepia_image \<leftarrow> adjust_saturation P image' (3 / 10);
           adjust_brightness_contrast P sepia_image 10 (11 / 10)
         }
     }"

definition crop_image ::
  "('img, 'rng) pil \<Rightarrow> 'img \<Rightarrow> int \<Rightarrow> int \<Rightarrow> int \<Rightarrow> int \<Rightarrow> 'img option" where
  "crop_image P image' left top' right bottom =
     (let (width, height) = img_size P image';
          left = max 0 (min left width);
          top' = max 0 (min top' height);
          right = max 0 (min right width);
          bottom = max 0 (min bottom height)
      in if right \<le> left \<or> bottom \<le> top' then Some image'
         else img_crop P image' (left, top', right, bottom))"

definition resize_image ::
  "('img, 'rng) pil \<Rightarrow> 'img \<Rightarrow> int \<Rightarrow> int \<Rightarrow> bool \<Rightarrow> 'img option" where
  \<comment> \<open>Dividing by a zero original dimension raises ZeroDivisionError.\<close>
  "resize_image P image' width height keep_aspect_ratio =
     (if width \<le> 0 \<or> height \<le> 0 then Some image'
      else if keep_aspect_ratio then
        (let (original_width, original_height) = img_size P image'
         in if original_width = 0 \<or> original_height = 0 then None
            else
              let ratio = min (real_of_int width / real_of_int original_width)
                              (real_of_int height / real_of_int original_height);
                  new_width = py_int (real_of_int original_width * ratio);
                  new_height = py_int (real_of_int original_height * ratio)
              in img_resize P image' (new_width, new_height))
      else img_resize P image' (width, height))"

definition resize_by_percentage :: "('img, 'rng) pil \<Rightarrow> 'img \<Rightarrow> real \<Rightarrow> 'img option" where
  "resize_by_percentage P image' percentage =
     (if percentage \<le> 0 then Some image'
      else
        let (original_width, original_height) = img_size P image';
            new_width = py_int (real_of_int original_width * percentage / 100);
            new_height = py_int (real_of_int original_height * percentage / 100)
        in img_resize P image' (new_width, new_height))"

section \<open>The pipeline: update_image\<close>

definition keep_rng :: "'rng \<Rightarrow> 'img option \<Rightarrow> ('img \<times> 'rng) option" where
  \<comment> \<open>A filter that draws no random number leaves the generator as it was.\<close>
  "keep_rng g r = map_option (\<lambda>img. (img, g)) r"

fun repeat_filter :: "('img, 'rng) pil \<Rightarrow> kernel \<Rightarrow> nat \<Rightarrow> 'img \<Rightarrow> 'img option" where
  \<comment> \<open>\<open>for _ in range(n): img = img.filter(k)\<close>\<close>
  "repeat_filter P k 0 img = Some img"
| "repeat_filter P k (Suc n) img =
     do {
       img \<leftarrow> img_filter P img k;
       repeat_filter P k n img
     }"

fun vignette_mask ::
  "('img, 'rng) pil \<Rightarrow> int \<Rightarrow> int \<Rightarrow> nat \<Rightarrow> 'img \<Rightarrow> 'img option" where
  \<comment> \<open>\<open>for i in range(min(width, height) // 2, 0, -1)\<close>, the mask redrawn at each step;
      the fourth argument is the current \<open>i\<close>.\<close>
  "vignette_mask P width height 0 mask' = Some mask'"
| "vignette_mask P width height (Suc k) mask' =
     (let i = int (Suc k);
          opacity = py_int (255 * (real_of_int i / real_of_int (min width height div 2)))
      in do {
           mask' \<leftarrow> ImageDraw_ellipse P mask'
                    ((width div 2 - i, height div 2 - i), (width div 2 + i, height div 2 + i))
                    opacity;
           vignette_mask P width height k mask'
         })"

definition selected_filter ::
  "('img, 'rng) pil \<Rightarrow> bool \<Rightarrow> string \<Rightarrow> real \<Rightarrow> real \<Rightarrow> real \<Rightarrow> 'rng \<Rightarrow> 'img
     \<Rightarrow> ('img \<times> 'rng) option" where
  \<comment> \<open>The \<open>if\<close>/\<open>elif\<close> chain of \<open>update_image\<close> under
      \<open>if current_filter != "none"\<close>; an identifier that no branch names changes nothing.\<close>
  "selected_filter P NUMPY_AVAILABLE flt intensity cur_brightness cur_contrast g img =
     (if flt = ''grayscale'' then
        keep_rng g (do { l \<leftarrow> img_convert P img ''L''; img_convert P l ''RGB'' })
      else if flt = ''sepia'' then keep_rng g (apply_sepia P NUMPY_AVAILABLE img)
      else if flt = ''invert'' then keep_rng g (ImageOps_invert P img)
      else if flt = ''brightness'' then
        keep_rng g (adjust_brightness_contrast P img (50 * intensity) cur_contrast)
      else if flt = ''contrast'' then
        keep_rng g (adjust_brightness_contrast P img cur_brightness (1 + intensity))
      else if flt = ''saturation'' then keep_rng g (adjust_saturation P img (1 + intensity))
      else if flt = ''gaussian_blur'' then
        keep_rng g (img_filter P img (GaussianBlur (intensity * 5)))
      else if flt = ''median_blur'' then
        keep_rng g (img_filter P img (MedianFilter (py_int (intensity * 5))))
      else if flt = ''sharpen'' then
        keep_rng g
          (do {
             img \<leftarrow> img_filter P img SHARPEN;
             if intensity > 1 then repeat_filter P SHARPEN (nat (py_int intensity)) img
             else Some img
           })
      else if flt = ''edge_detection'' then keep_rng g (img_filter P img FIND_EDGES)
      else if flt = ''emboss'' then keep_rng g (img_filter P img EMBOSS)
      else if flt = ''threshold'' then
        keep_rng g
          (do {
             gray \<leftarrow> img_convert P img ''L'';
             let threshold = py_int (128 * intensity);
             bw \<leftarrow> img_point P gray (\<lambda>x. if x > threshold then 255 else 0);
             img_convert P bw ''RGB''
           })
      else if flt = ''histogram_eq'' then
        keep_rng g (apply_histogram_equalization P NUMPY_AVAILABLE img intensity)
      else if flt = ''color_balance'' then
        keep_rng g
          (case img_split P img of
             [r, gr, b] \<Rightarrow>
               do {
                 r \<leftarrow> ImageOps_autocontrast P r (intensity * 10);
                 gr \<leftarrow> ImageOps_autocontrast P gr (intensity * 10);
                 b \<leftarrow> ImageOps_autocontrast P b (intensity * 10);
                 Image_merge P ''RGB'' [r, gr, b]
               }
           | _ \<Rightarrow> None)
      else if flt = ''vignette'' then
        keep_rng g
          (let (width, height) = img_size P img
           in do {
                mask' \<leftarrow> Image_new P ''L'' (width, height) [0];
                mask' \<leftarrow> vignette_mask P width height (nat (min width height div 2)) mask';
                dark \<leftarrow> Image_new P ''RGB'' (img_size P img) [30, 20, 10];
                Image_composite P img dark mask'
              })
      else if flt = ''cartoonify'' then
        keep_rng g
          (do {
             edges \<leftarrow> img_filter P img FIND_EDGES;
             edges_l \<leftarrow> img_convert P edges ''L'';
             edges \<leftarrow> ImageOps_invert P edges_l;
             color \<leftarrow> ImageOps_posterize P img 4;
             edges_rgb \<leftarrow> img_convert P edges ''RGB'';
             ImageChops_multiply P color edges_rgb
           })
      else if flt = ''oil_painting'' then
        keep_rng g
          (do {
             img \<leftarrow> img_filter P img (ModeFilter (py_int (intensity * 5)));
             ImageEnhance_Contrast P img (15 / 10)
           })
      else if flt = ''pencil_sketch'' then apply_pencil_sketch P NUMPY_AVAILABLE g img intensity
      else if flt = ''erosion'' then
        keep_rng g (img_filter P img (MinFilter (py_int (intensity * 5))))
      else if flt = ''dilation'' then
        keep_rng g (img_filter P img (MaxFilter (py_int (intensity * 5))))
      else if flt = ''opening'' then
        keep_rng g
          (do {
             img \<leftarrow> img_filter P img (MinFilter (py_int (intensity * 5)));
             img_filter P img (MaxFilter (py_int (intensity * 5)))
           })
      else if flt = ''closing'' then
        keep_rng g
          (do {
             img \<leftarrow> img_filter P img (MaxFilter (py_int (intensity * 5)));
             img_filter P img (MinFilter (py_int (intensity * 5)))
           })
      else Some (img, g))"

definition adjusted ::
  "('img, 'rng) pil \<Rightarrow> 'img \<Rightarrow> real \<Rightarrow> real \<Rightarrow> real \<Rightarrow> int \<Rightarrow> 'img option" where
  \<comment> \<open>Steps 1 to 3 of \<open>update_image\<close>, on a copy of the original image.\<close>
  "adjusted P original brightness contrast saturation hue =
     do {
       img \<leftarrow> adjust_brightness_contrast P original brightness contrast;
       img \<leftarrow> (if saturation \<noteq> 1 then adjust_saturation P img saturation else Some img);
       img \<leftarrow> (if hue \<noteq> 0 then adjust_hue P img hue else Some img);
       Some img
     }"

definition update_image ::
  "('img, 'rng) pil \<Rightarrow> bool \<Rightarrow> string list \<Rightarrow> ('img, 'rng) app \<Rightarrow> ('img, 'rng) app option" where
  \<comment> \<open>\<open>args\<close> is the tuple \<open>*args\<close>. The redrawing of the canvases is not part of the
      state. The assignment to \<open>processed_image\<close>, the status text and the history entry
      stand inside the branch of a selected filter, as the source indents them.\<close>
  "update_image P NUMPY_AVAILABLE args s =
     (case original_image s of
        None \<Rightarrow> Some s
      | Some original \<Rightarrow>
          if \<not> real_time_preview s \<and> args \<noteq> [] \<and> hd args \<noteq> ''force'' then Some s
          else
            let brightness = brightness_slider s;
                contrast = contrast_slider s;
                saturation = saturation_slider s;
                hue = hue_slider s;
                adjustments_changed =
                  (brightness \<noteq> current_brightness s \<or> contrast \<noteq> current_contrast s \<or>
                   saturation \<noteq> current_saturation s \<or> hue \<noteq> current_hue s \<or>
                   (args \<noteq> [] \<and> hd args = ''force''))
            in if \<not> adjustments_changed \<and> args = [] then Some s
               else
                 let s = s\<lparr>current_brightness := brightness, current_contrast := contrast,
                            current_saturation := saturation, current_hue := hue\<rparr>
                 in do {
                      img \<leftarrow> adjusted P original (current_brightness s) (current_contrast s)
                               (current_saturation s) (current_hue s);
                      if current_filter s \<noteq> ''none'' then
                        do {
                          (img, g) \<leftarrow> selected_filter P NUMPY_AVAILABLE (current_filter s)
                                        (filter_intensity s) (current_brightness s)
                                        (current_contrast s) (rng s) img;
                          let s = s\<lparr>processed_image := Some img, rng := g,
                                     status_bar :=
                                       Adjustments (current_brightness s) (current_contrast s)
                                         (current_saturation s) (current_hue s)
                                         (current_filter s) (zoom_factor s)\<rparr>;
                          Some (if args \<noteq> [] \<and> hd args \<noteq> ''history''
                                then add_to_history s else s)
                        }
                      else Some s
                    })"

section \<open>The specification's formulas\<close>




definition spec_sharpen_count :: "real \<Rightarrow> nat" where
  \<comment> \<open>The specification's words: \<open>max(1, round(intensity))\<close> times when intensity>1.0,
      else once.\<close>
  "spec_sharpen_count intensity =
     (if intensity > 1 then nat (max 1 (py_round intensity)) else 1)"

definition times_filter ::
  "('img, 'rng) pil \<Rightarrow> kernel \<Rightarrow> nat \<Rightarrow> 'img \<Rightarrow> 'img option" where
  \<comment> \<open>The kernel applied \<open>n\<close> times in a row.\<close>
  "times_filter P k n img = ((\<lambda>r. Option.bind r (\<lambda>x. img_filter P x k)) ^^ n) (Some img)"

section \<open>A library of terms\<close>

text \<open>
  An instance of the library record for concrete runs: an image is the term of the
  library calls that built it, so two results are equal exactly when the same calls were
  made in the same order with the same arguments. Arrays are carried as they are. The
  random generator is a list of the samples it will return.
\<close>

datatype sym =
  Pic string nat
  | Call string string "real list" "sym list"
  | Pixels string "8 word ndarray"

fun sym_mode :: "sym \<Rightarrow> string" where
  "sym_mode (Pic m n) = m"
| "sym_mode (Call m f rs xs) = m"
| "sym_mode (Pixels m a) = m"

fun sym_array :: "sym \<Rightarrow> 8 word ndarray" where
  "sym_array (Pixels m a) = a"
| "sym_array x =
     (if sym_mode x = ''L'' then \<lparr>shape = [1, 2], elems = [200, 100]\<rparr>
      else \<lparr>shape = [1, 1, 3], elems = [200, 100, 50]\<rparr>)"

fun kernel_term :: "kernel \<Rightarrow> string \<times> real list" where
  "kernel_term (GaussianBlur r) = (''GaussianBlur'', [r])"
| "kernel_term (MedianFilter n) = (''MedianFilter'', [of_int n])"
| "kernel_term (ModeFilter n) = (''ModeFilter'', [of_int n])"
| "kernel_term (MinFilter n) = (''MinFilter'', [of_int n])"
| "kernel_term (MaxFilter n) = (''MaxFilter'', [of_int n])"
| "kernel_term BLUR = (''BLUR'', [])"
| "kernel_term CONTOUR = (''CONTOUR'', [])"
| "kernel_term DETAIL = (''DETAIL'', [])"
| "kernel_term EDGE_ENHANCE = (''EDGE_ENHANCE'', [])"
| "kernel_term EDGE_ENHANCE_MORE = (''EDGE_ENHANCE_MORE'', [])"
| "kernel_term EMBOSS = (''EMBOSS'', [])"
| "kernel_term FIND_EDGES = (''FIND_EDGES'', [])"
| "kernel_term SHARPEN = (''SHARPEN'', [])"
| "kernel_term SMOOTH = (''SMOOTH'', [])"
| "kernel_term SMOOTH_MORE = (''SMOOTH_MORE'', [])"

definition sym_call :: "string \<Rightarrow> real list \<Rightarrow> sym list \<Rightarrow> sym option" where
  \<comment> \<open>A call that keeps the mode of its first image.\<close>
  "sym_call f rs xs = Some (Call (case xs of [] \<Rightarrow> ''RGB'' | x # _ \<Rightarrow> sym_mode x) f rs xs)"

definition sym_pil :: "(sym, real list) pil" where
  "sym_pil =
     \<lparr> img_mode = sym_mode,
       img_size = (\<lambda>x. (4, 4)),
       img_convert = (\<lambda>x m. Some (Call m ''convert'' [] [x])),
       img_split = (\<lambda>x. if sym_mode x = ''RGB''
                         then [Call ''L'' ''band'' [0] [x], Call ''L'' ''band'' [1] [x],
                               Call ''L'' ''band'' [2] [x]]
                         else [x]),
       img_filter = (\<lambda>x k. sym_call (fst (kernel_term k)) (snd (kernel_term k)) [x]),
       img_point = (\<lambda>x f. sym_call ''point'' [of_int (f 0), of_int (f 128), of_int (f 255)] [x]),
       img_crop = (\<lambda>x (l, t, r, b). sym_call ''crop'' [of_int l, of_int t, of_int r, of_int b] [x]),
       img_resize = (\<lambda>x (w, h). sym_call ''resize'' [of_int w, of_int h] [x]),
       Image_new = (\<lambda>m sz c. Some (Call m ''new'' (map of_int c) [])),
       Image_merge = (\<lambda>m xs. Some (Call m ''merge'' [] xs)),
       Image_blend = (\<lambda>x y a. sym_call ''blend'' [a] [x, y]),
       Image_composite = (\<lambda>x y m. sym_call ''composite'' [] [x, y, m]),
       Image_fromarray = (\<lambda>a. Some (Pixels (if length (shape a) = 2 then ''L'' else ''RGB'') a)),
       ImageEnhance_Brightness = (\<lambda>x f. sym_call ''Brightness'' [f] [x]),
       ImageEnhance_Contrast = (\<lambda>x f. sym_call ''Contrast'' [f] [x]),
       ImageEnhance_Color = (\<lambda>x f. sym_call ''Color'' [f] [x]),
       ImageOps_grayscale = (\<lambda>x. Some (Call ''L'' ''grayscale'' [] [x])),
       ImageOps_equalize = (\<lambda>x. sym_call ''equalize'' [] [x]),
       ImageOps_invert = (\<lambda>x. sym_call ''invert'' [] [x]),
       ImageOps_autocontrast = (\<lambda>x c. sym_call ''autocontrast'' [c] [x]),
       ImageOps_posterize = (\<lambda>x n. sym_call ''posterize'' [of_int n] [x]),
       ImageChops_multiply = (\<lambda>x y. sym_call ''multiply'' [] [x, y]),
       ImageDraw_ellipse = (\<lambda>x ((a, b), (c, d)) v.
          sym_call ''ellipse'' [of_int a, of_int b, of_int c, of_int d, of_int v] [x]),
       np_array = sym_array,
       np_random_normal = (\<lambda>m sd g. case g of [] \<Rightarrow> (m, []) | x # xs \<Rightarrow> (x, xs)),
       uint8_overflow = (\<lambda>x. word_of_int (py_int x)) \<rparr>"


section \<open>The history store is bounded and linear\<close>


lemma py_index_nth: "0 \<le> i \<Longrightarrow> i < int (length xs) \<Longrightarrow> py_index xs i = Some (xs ! nat i)"
  by (simp add: py_index_def Let_def)

lemma py_slice_to_nonneg: "0 \<le> k \<Longrightarrow> py_slice_to k xs = take (nat k) xs"
  by (simp add: py_slice_to_def)

lemma hist_inv_init: "hist_inv (init_app g)"
  by (simp add: hist_inv_def init_app_def)

lemma hist_inv_push: "hist_inv s \<Longrightarrow> hist_inv (push img s)"
  by (auto simp: hist_inv_def push_def add_to_history_def Let_def py_slice_to_nonneg)

lemma hist_inv_undo: "hist_inv s \<Longrightarrow> \<exists>s'. undo s = Some s' \<and> hist_inv s'"
  by (auto simp: hist_inv_def undo_def Let_def py_index_nth)

lemma hist_inv_redo: "hist_inv s \<Longrightarrow> \<exists>s'. redo s = Some s' \<and> hist_inv s'"
  by (auto simp: hist_inv_def redo_def Let_def py_index_nth)

lemma hist_inv_run_op: "hist_inv s \<Longrightarrow> \<exists>s'. run_op x s = Some s' \<and> hist_inv s'"
  by (cases x) (simp_all add: hist_inv_push hist_inv_undo hist_inv_redo)

lemma hist_inv_run_ops: "hist_inv s \<Longrightarrow> \<exists>s'. run_ops xs s = Some s' \<and> hist_inv s'"
proof (induction xs arbitrary: s)
  case Nil
  then show ?case by simp
next
  case (Cons x xs)
  from hist_inv_run_op [OF Cons.prems, of x]
  obtain s1 where s1: "run_op x s = Some s1" "hist_inv s1" by blast
  from Cons.IH [OF s1(2)] s1(1) show ?case by simp
qed

lemma push_at_tail:
  assumes "max_history s = 10" "history_position s = int (length (history s)) - 1"
    "length (history s) \<le> 10"
  shows "history (push x s) = drop (length (history s @ [x]) - 10) (history s @ [x])"
    and "history_position (push x s) = int (length (history (push x s))) - 1"
    and "max_history (push x s) = 10"
    and "length (history (push x s)) \<le> 10"
proof -
  consider "length (history s) = 10" | "length (history s) < 10" using assms(3) by linarith
  then have "history (push x s) = drop (length (history s @ [x]) - 10) (history s @ [x]) \<and>
    history_position (push x s) = int (length (history (push x s))) - 1 \<and>
    max_history (push x s) = 10 \<and> length (history (push x s)) \<le> 10"
    using assms(1,2) by cases (auto simp: push_def add_to_history_def Let_def)
  then show "history (push x s) = drop (length (history s @ [x]) - 10) (history s @ [x])"
    and "history_position (push x s) = int (length (history (push x s))) - 1"
    and "max_history (push x s) = 10"
    and "length (history (push x s)) \<le> 10" by simp_all
qed

lemma drop_window:
  assumes "length hs \<le> 10"
  shows "drop (length (drop (length (hs @ [x]) - 10) (hs @ [x]) @ xs) - 10)
           (drop (length (hs @ [x]) - 10) (hs @ [x]) @ xs)
         = drop (length (hs @ x # xs) - 10) (hs @ x # xs)"
proof (cases "length hs = 10")
  case True
  then obtain h hs' where "hs = h # hs'" by (cases hs) auto
  with True show ?thesis by simp
next
  case False
  with assms show ?thesis by simp
qed

lemma pushes_window:
  assumes "max_history s = 10" "history_position s = int (length (history s)) - 1"
    "length (history s) \<le> 10"
  shows "\<exists>s'. run_ops (map Push xs) s = Some s' \<and>
           history s' = drop (length (history s @ xs) - 10) (history s @ xs) \<and>
           history_position s' = int (length (history s')) - 1"
  using assms
proof (induction xs arbitrary: s)
  case Nil
  then show ?case by simp
next
  case (Cons x xs)
  note p = push_at_tail [OF Cons.prems, of x]
  from Cons.IH [OF p(3) p(2) p(4)]
  obtain s' where s': "run_ops (map Push xs) (push x s) = Some s'"
    "history s' = drop (length (history (push x s) @ xs) - 10) (history (push x s) @ xs)"
    "history_position s' = int (length (history s')) - 1" by blast
  have "history s' = drop (length (history s @ x # xs) - 10) (history s @ x # xs)"
    unfolding s'(2) p(1) by (rule drop_window [OF Cons.prems(3)])
  with s' show ?case by simp
qed

lemma push_snoc:
  assumes "hist_inv s"
  shows "\<exists>pre. history (push x s) = pre @ [x] \<and> history_position (push x s) = int (length pre)"
proof -
  let ?h = "take (nat (history_position s + 1)) (history s) @ [x]"
  show ?thesis
  proof (cases "10 < length ?h")
    case True
    then obtain y ys where "take (nat (history_position s + 1)) (history s) = y # ys"
      by (cases "take (nat (history_position s + 1)) (history s)") auto
    with True assms show ?thesis
      by (auto simp: hist_inv_def push_def add_to_history_def Let_def py_slice_to_nonneg
          intro!: exI [of _ ys])
  next
    case False
    with assms show ?thesis
      by (auto simp: hist_inv_def push_def add_to_history_def Let_def py_slice_to_nonneg)
  qed
qed

lemma push_snoc2:
  assumes "hist_inv s" "history s = pre @ [a]" "history_position s = int (length pre)"
  shows "\<exists>pre'. history (push x s) = pre' @ [a, x] \<and>
           history_position (push x s) = int (length pre') + 1"
proof (cases "length pre = 9")
  case True
  then obtain y ys where "pre = y # ys" by (cases pre) auto
  with True assms show ?thesis
    by (auto simp: hist_inv_def push_def add_to_history_def Let_def)
next
  case False
  with assms show ?thesis
    by (auto simp: hist_inv_def push_def add_to_history_def Let_def)
qed

text \<open>
  Claim C3. From any state of the store that holds at most ten entries with a valid
  cursor (the empty store of \<open>__init__\<close> is one), every sequence of pushes, undos and
  redos runs without an exception and leaves at most ten entries and, when the store is
  not empty, a cursor that is an index into them. Eleven pushes into the empty store
  leave exactly the last ten, the first one evicted, with the cursor on the newest.
\<close>

theorem history_store_bounded:
  assumes "hist_inv s0"
  shows "(\<exists>s. run_ops ops s0 = Some s \<and> length (history s) \<le> 10 \<and>
            (history s \<noteq> [] \<longrightarrow>
               0 \<le> history_position s \<and> history_position s < int (length (history s)))) \<and>
         (history s0 = [] \<and> length xs = 11 \<longrightarrow>
            (\<exists>s. run_ops (map Push xs) s0 = Some s \<and> history s = tl xs \<and>
                 length (history s) = 10 \<and> history_position s = 9 \<and>
                 py_index (history s) (history_position s) = Some (last xs)))"
proof (intro conjI impI)
  from hist_inv_run_ops [OF assms, of ops]
  obtain s where "run_ops ops s0 = Some s" "hist_inv s" by blast
  then show "\<exists>s. run_ops ops s0 = Some s \<and> length (history s) \<le> 10 \<and>
            (history s \<noteq> [] \<longrightarrow>
               0 \<le> history_position s \<and> history_position s < int (length (history s)))"
    by (auto simp: hist_inv_def)
next
  assume a: "history s0 = [] \<and> length xs = 11"
  with assms have "max_history s0 = 10" "history_position s0 = int (length (history s0)) - 1"
    "length (history s0) \<le> 10" by (auto simp: hist_inv_def)
  from pushes_window [OF this, of xs] a
  obtain s where s: "run_ops (map Push xs) s0 = Some s" "history s = drop 1 xs"
    "history_position s = int (length (history s)) - 1" by auto
  from a obtain y ys where xs: "xs = y # ys" "length ys = 10" by (cases xs) auto
  then have "ys \<noteq> []" by auto
  with s xs have "history s = tl xs" "length (history s) = 10" "history_position s = 9"
    "py_index (history s) (history_position s) = Some (last xs)"
    by (simp_all add: py_index_nth last_conv_nth)
  with s(1) show "\<exists>s. run_ops (map Push xs) s0 = Some s \<and> history s = tl xs \<and>
                 length (history s) = 10 \<and> history_position s = 9 \<and>
                 py_index (history s) (history_position s) = Some (last xs)" by blast
qed

theorem history_store_bounded_witness:
  "hist_inv (init_app () :: (nat, unit) app) \<and>
   (\<exists>s. run_ops [Push 1, Push 2, Undo, Undo, Redo, Push 3, Redo] (init_app () :: (nat, unit) app)
           = Some s \<and> length (history s) \<le> 10 \<and>
         (history s \<noteq> [] \<longrightarrow>
            0 \<le> history_position s \<and> history_position s < int (length (history s)))) \<and>
   (\<exists>s. run_ops (map Push [1, 2, 3, 4, 5, 6, 7, 8, 9, 10, 11]) (init_app () :: (nat, unit) app)
           = Some s \<and> history s = [2, 3, 4, 5, 6, 7, 8, 9, 10, 11] \<and>
         length (history s) = 10 \<and> history_position s = 9 \<and>
         py_index (history s) (history_position s) = Some 11)"
proof -
  let ?ops = "[Push 1, Push 2, Undo, Undo, Redo, Push 3, Redo] :: nat hist_op list"
  let ?xs = "[1, 2, 3, 4, 5, 6, 7, 8, 9, 10, 11] :: nat list"
  have h: "hist_inv (init_app () :: (nat, unit) app)" by (rule hist_inv_init)
  have e: "history (init_app () :: (nat, unit) app) = [] \<and> length ?xs = 11"
    by (simp add: init_app_def)
  have t: "tl ?xs = [2, 3, 4, 5, 6, 7, 8, 9, 10, 11]" "last ?xs = 11" by simp_all
  note c = history_store_bounded [OF h, of ?ops ?xs]
  from c have c1: "\<exists>s. run_ops ?ops (init_app () :: (nat, unit) app) = Some s \<and>
      length (history s) \<le> 10 \<and>
      (history s \<noteq> [] \<longrightarrow>
         0 \<le> history_position s \<and> history_position s < int (length (history s)))"
    by (rule conjunct1)
  from c e have c2: "\<exists>s. run_ops (map Push ?xs) (init_app () :: (nat, unit) app) = Some s \<and>
      history s = tl ?xs \<and> length (history s) = 10 \<and> history_position s = 9 \<and>
      py_index (history s) (history_position s) = Some (last ?xs)"
    by blast
  from h c1 c2 [unfolded t] show ?thesis by (intro conjI)
qed

lemma undo_at:
  assumes "history s = pre @ [a, b]" "history_position s = int (length pre) + 1"
  shows "undo s = Some (s\<lparr>history_position := int (length pre), processed_image := Some a,
           status_bar := Text ''Undo: Reverted to previous state''\<rparr>)"
  using assms by (simp add: undo_def Let_def py_index_nth nth_append)

lemma redo_at:
  assumes "history s = pre @ [a, b]" "history_position s = int (length pre)"
  shows "redo s = Some (s\<lparr>history_position := int (length pre) + 1, processed_image := Some b,
           status_bar := Text ''Redo: Applied next state''\<rparr>)"
  using assms by (simp add: redo_def Let_def py_index_nth nth_append)

lemma push_after_undo:
  assumes "history s = pre @ [a, b]" "history_position s = int (length pre)"
    "max_history s = 10" "length pre \<le> 8"
  shows "history (push c s) = pre @ [a, c]"
    and "history_position (push c s) = int (length pre) + 1"
proof -
  have n: "nat (int (length pre) + 1) = Suc (length pre)" by simp
  show "history (push c s) = pre @ [a, c]"
    and "history_position (push c s) = int (length pre) + 1"
    using assms by (simp_all add: push_def add_to_history_def Let_def py_slice_to_nonneg n)
qed

lemma redo_at_tail:
  assumes "history_position s = int (length (history s)) - 1"
  shows "redo s = Some (s\<lparr>status_bar := Text ''Nothing to redo''\<rparr>)"
  using assms by (simp add: redo_def)

text \<open>
  Claim C4. After push(A); push(B), undo shows A and the following redo shows B. A
  push(C) after the undo replaces B, the last entry, by C and leaves the cursor on the
  tail, so the next redo only reports "Nothing to redo" and changes nothing else.
\<close>

theorem undo_redo_linear_history:
  assumes "hist_inv s0"
  shows "\<exists>s3 s4. undo (push B (push A s0)) = Some s3 \<and> processed_image s3 = Some A \<and>
           redo s3 = Some s4 \<and> processed_image s4 = Some B \<and>
           last (history (push B (push A s0))) = B \<and>
           history (push C s3) = butlast (history (push B (push A s0))) @ [C] \<and>
           history_position (push C s3) = int (length (history (push C s3))) - 1 \<and>
           redo (push C s3) = Some ((push C s3)\<lparr>status_bar := Text ''Nothing to redo''\<rparr>)"
proof -
  define s1 where "s1 = push A s0"
  define s2 where "s2 = push B s1"
  have i1: "hist_inv s1" unfolding s1_def by (rule hist_inv_push [OF assms])
  have i2: "hist_inv s2" unfolding s2_def by (rule hist_inv_push [OF i1])
  from push_snoc [OF assms, of A]
  obtain pre where p1: "history s1 = pre @ [A]" "history_position s1 = int (length pre)"
    unfolding s1_def by blast
  from push_snoc2 [OF i1 p1, of B]
  obtain pre' where p2: "history s2 = pre' @ [A, B]"
    "history_position s2 = int (length pre') + 1" unfolding s2_def by blast
  define s3 where "s3 = s2\<lparr>history_position := int (length pre'), processed_image := Some A,
    status_bar := Text ''Undo: Reverted to previous state''\<rparr>"
  define s4 where "s4 = s3\<lparr>history_position := int (length pre') + 1,
    processed_image := Some B, status_bar := Text ''Redo: Applied next state''\<rparr>"
  have u: "undo s2 = Some s3" unfolding s3_def by (rule undo_at [OF p2])
  have p3: "history s3 = pre' @ [A, B]" "history_position s3 = int (length pre')"
    using p2 by (simp_all add: s3_def)
  have r: "redo s3 = Some s4" unfolding s4_def by (rule redo_at [OF p3])
  have len: "length pre' \<le> 8" using i2 p2 by (simp add: hist_inv_def)
  have m: "max_history s3 = 10" using i2 by (simp add: s3_def hist_inv_def)
  note p5 = push_after_undo [OF p3 m len, of C]
  have "history_position (push C s3) = int (length (history (push C s3))) - 1"
    using p5 by simp
  note r5 = redo_at_tail [OF this]
  have "processed_image s3 = Some A" "processed_image s4 = Some B"
    by (simp_all add: s3_def s4_def)
  moreover have "last (history s2) = B" "butlast (history s2) @ [C] = pre' @ [A, C]"
    using p2 by (simp_all add: butlast_append)
  ultimately have "undo s2 = Some s3 \<and> processed_image s3 = Some A \<and>
           redo s3 = Some s4 \<and> processed_image s4 = Some B \<and>
           last (history s2) = B \<and>
           history (push C s3) = butlast (history s2) @ [C] \<and>
           history_position (push C s3) = int (length (history (push C s3))) - 1 \<and>
           redo (push C s3) = Some ((push C s3)\<lparr>status_bar := Text ''Nothing to redo''\<rparr>)"
    using u r p5 r5 by simp
  then show ?thesis unfolding s2_def s1_def by blast
qed

theorem undo_redo_linear_history_witness:
  "hist_inv (init_app () :: (nat, unit) app) \<and>
   (\<exists>s3 s4. undo (push 20 (push 10 (init_app () :: (nat, unit) app))) = Some s3 \<and>
      processed_image s3 = Some 10 \<and> redo s3 = Some s4 \<and> processed_image s4 = Some 20 \<and>
      last (history (push 20 (push 10 (init_app () :: (nat, unit) app)))) = 20 \<and>
      history (push 30 s3) = butlast (history (push 20 (push 10 (init_app ())))) @ [30] \<and>
      history_position (push 30 s3) = int (length (history (push 30 s3))) - 1 \<and>
      redo (push 30 s3) = Some ((push 30 s3)\<lparr>status_bar := Text ''Nothing to redo''\<rparr>))"
proof -
  have h: "hist_inv (init_app () :: (nat, unit) app)" by (rule hist_inv_init)
  from undo_redo_linear_history [OF h, of 20 10 30] h show ?thesis by blast
qed

section \<open>Identities and silent no-ops\<close>

text \<open>
  Claim C7. On an RGB image the default parameters, brightness 0 and contrast 1.0, give
  back the image itself: neither enhancer of the library is called, whatever it would
  compute.
\<close>

theorem adjust_brightness_contrast_identity:
  "img_mode P image' = ''RGB'' \<Longrightarrow> adjust_brightness_contrast P image' 0 1 = Some image'"
  by (simp add: adjust_brightness_contrast_def to_rgb_def)

theorem adjust_brightness_contrast_identity_witness:
  "img_mode sym_pil (Pic ''RGB'' 0) = ''RGB'' \<and>
   adjust_brightness_contrast sym_pil (Pic ''RGB'' 0) 0 1 = Some (Pic ''RGB'' 0)"
proof -
  have h: "img_mode sym_pil (Pic ''RGB'' 0) = ''RGB''" by (simp add: sym_pil_def)
  from adjust_brightness_contrast_identity [OF h] h show ?thesis by (rule conjI [rotated])
qed

text \<open>
  Claim C8. A crop whose rectangle, once clamped into the image, has \<open>right \<le> left\<close> or
  \<open>bottom \<le> top\<close>, a resize to a width or height that is not positive, and a resize by a
  percentage that is not positive each return the image they were given, with no
  exception and no call to the library.
\<close>

theorem invalid_geometry_is_noop:
  "(max 0 (min right (fst (img_size P image'))) \<le> max 0 (min left (fst (img_size P image'))) \<or>
    max 0 (min bottom (snd (img_size P image'))) \<le> max 0 (min top' (snd (img_size P image')))
      \<longrightarrow> crop_image P image' left top' right bottom = Some image') \<and>
   (width \<le> 0 \<or> height \<le> 0 \<longrightarrow>
      resize_image P image' width height keep_aspect_ratio = Some image') \<and>
   (percentage \<le> 0 \<longrightarrow> resize_by_percentage P image' percentage = Some image')"
  by (auto simp: crop_image_def resize_image_def resize_by_percentage_def Let_def
      split: prod.splits)

theorem invalid_geometry_is_noop_witness:
  "crop_image sym_pil (Pic ''RGB'' 0) 3 0 1 4 = Some (Pic ''RGB'' 0) \<and>
   crop_image sym_pil (Pic ''RGB'' 0) 0 9 4 7 = Some (Pic ''RGB'' 0) \<and>
   resize_image sym_pil (Pic ''RGB'' 0) 0 100 True = Some (Pic ''RGB'' 0) \<and>
   resize_image sym_pil (Pic ''RGB'' 0) 100 0 False = Some (Pic ''RGB'' 0) \<and>
   resize_by_percentage sym_pil (Pic ''RGB'' 0) (- 5) = Some (Pic ''RGB'' 0)"
proof -
  have s: "img_size sym_pil (Pic ''RGB'' 0) = (4, 4)" by (simp add: sym_pil_def)
  from invalid_geometry_is_noop [of 1 sym_pil "Pic ''RGB'' 0" 3 4 0 0 100 True "- 5"]
    invalid_geometry_is_noop [of 4 sym_pil "Pic ''RGB'' 0" 0 7 9 100 0 False 0]
  show ?thesis by (simp add: s)
qed

text \<open>
  Claim C10. A filter name outside the ten entries of the \<open>filters\<close> dictionary makes
  \<open>apply_filter\<close> return the image it was given.
\<close>

theorem apply_filter_unknown_name:
  "filter_name \<notin> {''blur'', ''contour'', ''detail'', ''edge_enhance'', ''edge_enhance_more'',
      ''emboss'', ''find_edges'', ''sharpen'', ''smooth'', ''smooth_more''}
   \<Longrightarrow> apply_filter P image' filter_name = Some image'"
  by (simp add: apply_filter_def filters_def)

theorem apply_filter_unknown_name_witness:
  "apply_filter sym_pil (Pic ''RGB'' 0) ''sepia'' = Some (Pic ''RGB'' 0)"
  using apply_filter_unknown_name [of "''sepia''" sym_pil "Pic ''RGB'' 0"] by simp

section \<open>Histogram equalization\<close>

text \<open>
  Claim C2. With NumPy available, whatever \<open>apply_histogram_equalization\<close> returns
  on an RGB image is the library's brightness enhancement of that image by the fixed
  factor 1.2: the equalized luminance and the intensity are computed and then left
  unused. The claim asks for the blend of the original with the equalized image.
\<close>

theorem histogram_equalization_is_brightness_bump:
  "img_mode P image' = ''RGB'' \<Longrightarrow>
   apply_histogram_equalization P True image' intensity = Some r \<Longrightarrow>
   ImageEnhance_Brightness P image' (12 / 10) = Some r"
  by (auto simp: apply_histogram_equalization_def to_rgb_def Let_def
      split: list.splits if_splits Option.bind_splits)

theorem histogram_equalization_is_brightness_bump_witness:
  "img_mode sym_pil (Pic ''RGB'' 0) = ''RGB'' \<and>
   apply_histogram_equalization sym_pil True (Pic ''RGB'' 0) (1 / 2)
     = Some (Call ''RGB'' ''Brightness'' [12 / 10] [Pic ''RGB'' 0]) \<and>
   apply_histogram_equalization sym_pil True (Pic ''RGB'' 0) 1
     = Some (Call ''RGB'' ''Brightness'' [12 / 10] [Pic ''RGB'' 0]) \<and>
   ImageEnhance_Brightness sym_pil (Pic ''RGB'' 0) (12 / 10)
     = Some (Call ''RGB'' ''Brightness'' [12 / 10] [Pic ''RGB'' 0])"
proof -
  let ?r = "Call ''RGB'' ''Brightness'' [12 / 10] [Pic ''RGB'' 0]"
  have h: "img_mode sym_pil (Pic ''RGB'' 0) = ''RGB''" by (simp add: sym_pil_def)
  have a: "apply_histogram_equalization sym_pil True (Pic ''RGB'' 0) (1 / 2) = Some ?r"
    by (simp add: apply_histogram_equalization_def to_rgb_def sym_pil_def sym_call_def)
  have b: "apply_histogram_equalization sym_pil True (Pic ''RGB'' 0) 1 = Some ?r"
    by (simp add: apply_histogram_equalization_def to_rgb_def sym_pil_def sym_call_def)
  from histogram_equalization_is_brightness_bump [OF h a] h a b show ?thesis by simp
qed

section \<open>Sharpen\<close>

lemma bind_funpow_None: "((\<lambda>r. Option.bind r (f :: 'a \<Rightarrow> 'a option)) ^^ n) None = None"
  by (induction n) simp_all

lemma times_filter_0: "times_filter P k 0 img = Some img"
  by (simp add: times_filter_def)

lemma times_filter_Suc:
  "times_filter P k (Suc n) img = Option.bind (img_filter P img k) (times_filter P k n)"
proof -
  let ?f = "\<lambda>r. Option.bind r (\<lambda>x. img_filter P x k)"
  have "times_filter P k (Suc n) img = (?f ^^ n) (?f (Some img))"
    unfolding times_filter_def by (simp only: funpow_Suc_right o_apply)
  also have "\<dots> = (?f ^^ n) (img_filter P img k)" by simp
  also have "\<dots> = Option.bind (img_filter P img k) (times_filter P k n)"
    by (cases "img_filter P img k") (simp_all add: bind_funpow_None times_filter_def)
  finally show ?thesis .
qed

lemma repeat_filter_times: "repeat_filter P k n img = times_filter P k n img"
proof (induction n arbitrary: img)
  case 0
  show ?case by (simp add: times_filter_0)
next
  case (Suc n)
  then have "repeat_filter P k n = times_filter P k n" by (intro ext)
  then show ?case by (simp add: times_filter_Suc)
qed

text \<open>
  Claim C6, as amended. The sharpen branch applies the SHARPEN kernel once and, when the
  intensity is above 1.0, \<open>int(intensity)\<close> more times: \<open>1 + int(intensity)\<close>
  applications in all, and exactly one when the intensity is at most 1.0.
\<close>

theorem sharpen_application_count:
  "selected_filter P NUMPY_AVAILABLE ''sharpen'' intensity cur_brightness cur_contrast g img
   = keep_rng g (times_filter P SHARPEN
       (if intensity > 1 then 1 + nat (py_int intensity) else 1) img)"
proof -
  have r: "repeat_filter P SHARPEN n = times_filter P SHARPEN n" for n
    by (intro ext) (rule repeat_filter_times)
  have z: "times_filter P SHARPEN 0 = Some" by (intro ext) (rule times_filter_0)
  show ?thesis
    by (simp add: selected_filter_def r times_filter_Suc z)
qed

theorem sharpen_application_count_witness:
  "selected_filter sym_pil False ''sharpen'' 2 0 1 [] (Pic ''RGB'' 0)
   = Some (Call ''RGB'' ''SHARPEN'' []
             [Call ''RGB'' ''SHARPEN'' [] [Call ''RGB'' ''SHARPEN'' [] [Pic ''RGB'' 0]]], []) \<and>
   selected_filter sym_pil False ''sharpen'' (12 / 10) 0 1 [] (Pic ''RGB'' 0)
   = Some (Call ''RGB'' ''SHARPEN'' [] [Call ''RGB'' ''SHARPEN'' [] [Pic ''RGB'' 0]], []) \<and>
   selected_filter sym_pil False ''sharpen'' 1 0 1 [] (Pic ''RGB'' 0)
   = Some (Call ''RGB'' ''SHARPEN'' [] [Pic ''RGB'' 0], [])"
  using sharpen_application_count [of sym_pil False 2 0 1 "[]" "Pic ''RGB'' 0"]
    sharpen_application_count [of sym_pil False "12 / 10" 0 1 "[]" "Pic ''RGB'' 0"]
    sharpen_application_count [of sym_pil False 1 0 1 "[]" "Pic ''RGB'' 0"]
  by (simp add: times_filter_def keep_rng_def sym_pil_def sym_call_def py_int_def
      numeral_3_eq_3 numeral_2_eq_2)

text \<open>
  Claim C6 as stated fails at intensity 1.2: \<open>max(1, round(1.2))\<close> is one application,
  the code makes two.
\<close>

theorem sharpen_count_counterexample:
  "selected_filter sym_pil False ''sharpen'' (12 / 10) 0 1 [] (Pic ''RGB'' 0)
   \<noteq> keep_rng [] (times_filter sym_pil SHARPEN (spec_sharpen_count (12 / 10)) (Pic ''RGB'' 0))"
  by (simp add: selected_filter_def spec_sharpen_count_def py_round_def py_int_def
      times_filter_def keep_rng_def sym_pil_def sym_call_def eval_nat_numeral)

section \<open>Brightness and contrast\<close>

text \<open>
  The rounding of \<open>float64\<close>: \<open>ilog2\<close> is the binary exponent of a positive number,
  and \<open>float64 x\<close> is within half a unit of the last place of \<open>x\<close>.
\<close>

lemma ilog2_ge1:
  assumes "1 \<le> x"
  shows "2 powi ilog2 x \<le> x \<and> x < 2 powi (ilog2 x + 1)"
proof -
  let ?n = "\<lfloor>x\<rfloor>"
  have n: "0 < ?n" using assms by simp
  from bitlen_bounds [OF n]
  have b: "2 ^ nat (bitlen ?n - 1) \<le> ?n" "?n < 2 ^ nat (bitlen ?n)" by simp_all
  have b1: "1 \<le> bitlen ?n" using n by (simp add: bitlen_alt_def)
  have "real_of_int (2 ^ nat (bitlen ?n - 1)) \<le> real_of_int ?n" using b(1) by linarith
  also have "\<dots> \<le> x" by simp
  finally have lo: "2 ^ nat (bitlen ?n - 1) \<le> x" by simp
  have "?n + 1 \<le> 2 ^ nat (bitlen ?n)" using b(2) by simp
  then have "real_of_int (?n + 1) \<le> real_of_int (2 ^ nat (bitlen ?n))"
    by (simp only: of_int_le_iff)
  then have "real_of_int ?n + 1 \<le> 2 ^ nat (bitlen ?n)" by simp
  moreover have "x < real_of_int ?n + 1" by linarith
  ultimately have hi: "x < 2 ^ nat (bitlen ?n)" by linarith
  from lo hi b1 assms show ?thesis
    by (simp add: ilog2_def power_int_def)
qed

lemma ilog2_lt1:
  assumes "0 < x" "x < 1"
  shows "2 powi ilog2 x \<le> x \<and> x < 2 powi (ilog2 x + 1)"
proof -
  let ?m = "\<lceil>1 / x\<rceil> - 1"
  have y: "1 < 1 / x" using assms by simp
  then have m: "0 < ?m" by linarith
  from bitlen_bounds [OF m]
  have b: "2 ^ nat (bitlen ?m - 1) \<le> ?m" "?m < 2 ^ nat (bitlen ?m)" by simp_all
  have b1: "1 \<le> bitlen ?m" using m by (simp add: bitlen_alt_def)
  have "real_of_int (2 ^ nat (bitlen ?m - 1)) \<le> real_of_int ?m" using b(1) by linarith
  also have "\<dots> < 1 / x" by linarith
  finally have lo: "2 ^ nat (bitlen ?m - 1) < 1 / x" by simp
  have "?m + 1 \<le> 2 ^ nat (bitlen ?m)" using b(2) by simp
  then have "real_of_int (?m + 1) \<le> real_of_int (2 ^ nat (bitlen ?m))"
    by (simp only: of_int_le_iff)
  then have "real_of_int ?m + 1 \<le> 2 ^ nat (bitlen ?m)" by simp
  moreover have "1 / x \<le> real_of_int ?m + 1" by linarith
  ultimately have hi: "1 / x \<le> 2 ^ nat (bitlen ?m)" by linarith
  have p: "(0::real) < 2 ^ k" for k by simp
  from hi assms(1) have "1 \<le> 2 ^ nat (bitlen ?m) * x"
    by (simp add: field_simps)
  then have lo': "inverse 2 ^ nat (bitlen ?m) \<le> x"
    by (simp add: power_inverse field_simps)
  from lo assms(1) have "2 ^ nat (bitlen ?m - 1) * x < 1"
    by (simp add: field_simps)
  then have hi': "x < inverse 2 ^ nat (bitlen ?m - 1)"
    by (simp add: power_inverse field_simps)
  have e: "ilog2 x = - bitlen ?m" using assms by (simp add: ilog2_def)
  have n1: "nat (- (- bitlen ?m)) = nat (bitlen ?m)" by simp
  show ?thesis
  proof (cases "bitlen ?m = 1")
    case True
    with lo' hi' show ?thesis unfolding e by (simp add: power_int_def)
  next
    case False
    with b1 have "1 < bitlen ?m" by simp
    then have "nat (- (- bitlen ?m + 1)) = nat (bitlen ?m - 1)" "\<not> 0 \<le> - bitlen ?m + 1"
      "\<not> 0 \<le> - bitlen ?m" by simp_all
    with lo' hi' show ?thesis unfolding e by (simp add: power_int_def)
  qed
qed

lemma ilog2_bounds: "0 < x \<Longrightarrow> 2 powi ilog2 x \<le> x \<and> x < 2 powi (ilog2 x + 1)"
  using ilog2_ge1 [of x] ilog2_lt1 [of x] by (cases "1 \<le> x") simp_all

lemma py_round_near: "\<bar>real_of_int (py_round y) - y\<bar> \<le> 1 / 2"
proof -
  have "real_of_int \<lfloor>y\<rfloor> \<le> y" "y < real_of_int \<lfloor>y\<rfloor> + 1" by linarith+
  then show ?thesis by (auto simp: py_round_def Let_def)
qed

lemma float64_near:
  "\<bar>float64 x - x\<bar> \<le> 2 powi (max (ilog2 \<bar>x\<bar>) (- 1022) - 53)"
proof (cases "x = 0")
  case True
  then show ?thesis by (simp add: float64_def)
next
  case False
  define u :: real where "u = 2 powi (max (ilog2 \<bar>x\<bar>) (- 1022) - 52)"
  have u: "0 < u" by (simp add: u_def)
  have h: "2 powi (max (ilog2 \<bar>x\<bar>) (- 1022) - 53) = u / 2"
    by (simp add: u_def power_int_diff)
  have "float64 x - x = (real_of_int (py_round (x / u)) - x / u) * u"
    using False u by (simp add: float64_def Let_def u_def [symmetric] field_simps)
  then have "\<bar>float64 x - x\<bar> = \<bar>real_of_int (py_round (x / u)) - x / u\<bar> * u"
    using u by (simp add: abs_mult)
  also have "\<dots> \<le> 1 / 2 * u"
    using py_round_near [of "x / u"] u by (intro mult_right_mono) simp_all
  finally show ?thesis by (simp add: h)
qed
















section \<open>The pipeline commits only under a selected filter\<close>

lemma processed_image_add_to_history:
  "processed_image (add_to_history s) = processed_image s"
  by (simp add: add_to_history_def Let_def split: option.splits)

lemma last_history_add_to_history:
  assumes "hist_inv s" "processed_image s = Some img"
  shows "last (history (add_to_history s)) = img"
proof -
  from assms(2) have "s\<lparr>processed_image := Some img\<rparr> = s" by simp
  then have "add_to_history s = push img s" by (simp add: push_def)
  with push_snoc [OF assms(1), of img] show ?thesis by auto
qed

text \<open>
  Claim C1. A forced \<open>update_image\<close> on a loaded image runs brightness and contrast,
  saturation and hue in this order. Under a selected filter the filtered image becomes
  the processed image and the newest history entry. Under the filter "none" the adjusted
  image is dropped: the processed image and the history stay as they were, where the
  claim has the adjusted image committed.
\<close>

theorem update_image_commit:
  assumes "original_image s = Some original"
    and "adjusted P original (brightness_slider s) (contrast_slider s) (saturation_slider s)
           (hue_slider s) = Some a"
  shows "(current_filter s = ''none'' \<longrightarrow>
            (\<exists>s'. update_image P NUMPY_AVAILABLE [''force''] s = Some s' \<and>
                  processed_image s' = processed_image s \<and> history s' = history s)) \<and>
         (current_filter s \<noteq> ''none'' \<longrightarrow>
            (\<forall>img g. selected_filter P NUMPY_AVAILABLE (current_filter s) (filter_intensity s)
                       (brightness_slider s) (contrast_slider s) (rng s) a = Some (img, g) \<longrightarrow>
               (\<exists>s'. update_image P NUMPY_AVAILABLE [''force''] s = Some s' \<and>
                     processed_image s' = Some img \<and>
                     (hist_inv s \<longrightarrow> last (history s') = img))))"
proof (intro conjI impI allI)
  assume "current_filter s = ''none''"
  with assms show "\<exists>s'. update_image P NUMPY_AVAILABLE [''force''] s = Some s' \<and>
                  processed_image s' = processed_image s \<and> history s' = history s"
    by (simp add: update_image_def Let_def)
next
  fix img g
  assume f: "current_filter s \<noteq> ''none''"
    and sel: "selected_filter P NUMPY_AVAILABLE (current_filter s) (filter_intensity s)
                       (brightness_slider s) (contrast_slider s) (rng s) a = Some (img, g)"
  define t where "t = s\<lparr>current_brightness := brightness_slider s,
      current_contrast := contrast_slider s, current_saturation := saturation_slider s,
      current_hue := hue_slider s, processed_image := Some img, rng := g,
      status_bar := Adjustments (brightness_slider s) (contrast_slider s)
        (saturation_slider s) (hue_slider s) (current_filter s) (zoom_factor s)\<rparr>"
  have u: "update_image P NUMPY_AVAILABLE [''force''] s = Some (add_to_history t)"
    using assms f sel by (simp add: update_image_def Let_def t_def)
  have p: "processed_image t = Some img" by (simp add: t_def)
  have i: "hist_inv t" if "hist_inv s" using that by (simp add: hist_inv_def t_def)
  have "processed_image (add_to_history t) = Some img"
    by (simp add: processed_image_add_to_history p)
  moreover have "hist_inv s \<longrightarrow> last (history (add_to_history t)) = img"
    using last_history_add_to_history [OF i p] by blast
  ultimately show "\<exists>s'. update_image P NUMPY_AVAILABLE [''force''] s = Some s' \<and>
                     processed_image s' = Some img \<and>
                     (hist_inv s \<longrightarrow> last (history s') = img)"
    using u by blast
qed

theorem update_image_commit_witness:
  "original_image ((init_app [] :: (sym, real list) app)
      \<lparr>original_image := Some (Pic ''RGB'' 0), processed_image := Some (Pic ''RGB'' 0),
        brightness_slider := 50\<rparr>) = Some (Pic ''RGB'' 0) \<and>
   adjusted sym_pil (Pic ''RGB'' 0) 50 1 1 0
     = Some (Call ''RGB'' ''Brightness'' [3 / 2] [Pic ''RGB'' 0]) \<and>
   (\<exists>s'. update_image sym_pil False [''force'']
            ((init_app [] :: (sym, real list) app)
               \<lparr>original_image := Some (Pic ''RGB'' 0),
                 processed_image := Some (Pic ''RGB'' 0), brightness_slider := 50\<rparr>) = Some s' \<and>
          processed_image s' = Some (Pic ''RGB'' 0) \<and> history s' = [])"
proof -
  define s where "s = (init_app [] :: (sym, real list) app)
      \<lparr>original_image := Some (Pic ''RGB'' 0), processed_image := Some (Pic ''RGB'' 0),
        brightness_slider := 50\<rparr>"
  have o: "original_image s = Some (Pic ''RGB'' 0)" by (simp add: s_def)
  have v: "brightness_slider s = 50" "contrast_slider s = 1" "saturation_slider s = 1"
    "hue_slider s = 0" "current_filter s = ''none''" "processed_image s = Some (Pic ''RGB'' 0)"
    "history s = []"
    by (simp_all add: s_def init_app_def)
  have a: "adjusted sym_pil (Pic ''RGB'' 0) 50 1 1 0
     = Some (Call ''RGB'' ''Brightness'' [3 / 2] [Pic ''RGB'' 0])"
    by (simp add: adjusted_def adjust_brightness_contrast_def to_rgb_def sym_pil_def
        sym_call_def)
  have a': "adjusted sym_pil (Pic ''RGB'' 0) (brightness_slider s) (contrast_slider s)
     (saturation_slider s) (hue_slider s)
     = Some (Call ''RGB'' ''Brightness'' [3 / 2] [Pic ''RGB'' 0])"
    unfolding v by (rule a)
  from update_image_commit [OF o a', of False] v
  have "\<exists>s'. update_image sym_pil False [''force''] s = Some s' \<and>
          processed_image s' = Some (Pic ''RGB'' 0) \<and> history s' = []"
    by simp
  with o a show ?thesis unfolding s_def by blast
qed

section \<open>Determinism and the pencil sketch\<close>











end
